theory Spec2Isabelle
  imports Main
begin

section \<open>rabbit-lru-cache: an LRU cache kept coherent over a fanout exchange\<close>

text \<open>
  The development embeds \<^verbatim>\<open>src/rabbit-lru-cache.ts\<close>. The closure that
  \<^verbatim>\<open>createRabbitLRUCache\<close> builds (the variables \<^verbatim>\<open>closing\<close>,
  \<^verbatim>\<open>reconnecting\<close>, \<^verbatim>\<open>cacheId\<close>, \<^verbatim>\<open>cache\<close>,
  \<^verbatim>\<open>loadItemPromises\<close> and the event emitter) is a record; every function of the
  closure takes the record and returns the new one. The program is single-threaded and
  cooperative: an \<^verbatim>\<open>async\<close> function runs without interruption up to its next
  \<^verbatim>\<open>await\<close>, so each such function is split at its \<^verbatim>\<open>await\<close> into the
  part before and the part after, and other operations may run in between.
\<close>

subsection \<open>Values and errors\<close>

text \<open>
  A value of the type parameter \<^verbatim>\<open>T\<close> as the program tests it: it compares
  against \<^verbatim>\<open>undefined\<close> and \<^verbatim>\<open>null\<close> and otherwise treats the value as
  opaque.
\<close>

datatype 'v jsval = Undefined | Null | Val 'v

text \<open>
  \<^verbatim>\<open>ClosingError("Cache is closing or has been closed")\<close>, the assertion error of the
  constructor, and any other \<^verbatim>\<open>Error\<close> with its message (a loader's rejection, the
  error of the consumer callback, a transport error).
\<close>

datatype error = ClosingError | AssertionError string | Error string

text \<open>How a promise settles.\<close>

datatype 'v settled = Resolved "'v jsval" | Rejected error

subsection \<open>The LRU store\<close>

text \<open>
  Modelled from the spec: the store is the external library \<^verbatim>\<open>lru-cache\<close>, whose code
  is not part of the repository; the program only calls \<^verbatim>\<open>get\<close>, \<^verbatim>\<open>set\<close>,
  \<^verbatim>\<open>del\<close>, \<^verbatim>\<open>reset\<close>, \<^verbatim>\<open>has\<close>, \<^verbatim>\<open>keys\<close>,
  \<^verbatim>\<open>prune\<close> and reads \<^verbatim>\<open>itemCount\<close>, \<^verbatim>\<open>length\<close>,
  \<^verbatim>\<open>max\<close>, \<^verbatim>\<open>maxAge\<close>, \<^verbatim>\<open>allowStale\<close>. The model is a
  bounded keyed container with eviction: the entries are listed most recently used first,
  every entry weighs one, \<^verbatim>\<open>max = 0\<close> means no bound, and a store over its bound drops
  its least recently used entries. There is no clock in the model, so no entry expires and
  \<^verbatim>\<open>prune\<close> finds nothing to purge.
\<close>

record 'v lru_cache =
  entries :: "(string \<times> 'v jsval) list"
  lru_max :: nat
  lru_maxAge :: nat
  lru_allowStale :: bool

definition lru_trim :: "nat \<Rightarrow> 'a list \<Rightarrow> 'a list" where
  "lru_trim m xs = (if m = 0 then xs else take m xs)"

definition lru_without :: "string \<Rightarrow> (string \<times> 'v jsval) list \<Rightarrow> (string \<times> 'v jsval) list" where
  "lru_without k xs = filter (\<lambda>e. fst e \<noteq> k) xs"

definition lru_get :: "'v lru_cache \<Rightarrow> string \<Rightarrow> 'v jsval \<times> 'v lru_cache" where
  "lru_get c k =
     (case map_of (entries c) k of
        None \<Rightarrow> (Undefined, c)
      | Some v \<Rightarrow> (v, c\<lparr>entries := (k, v) # lru_without k (entries c)\<rparr>))"

definition lru_set :: "'v lru_cache \<Rightarrow> string \<Rightarrow> 'v jsval \<Rightarrow> 'v lru_cache" where
  "lru_set c k v = c\<lparr>entries := lru_trim (lru_max c) ((k, v) # lru_without k (entries c))\<rparr>"

definition lru_del :: "'v lru_cache \<Rightarrow> string \<Rightarrow> 'v lru_cache" where
  "lru_del c k = c\<lparr>entries := lru_without k (entries c)\<rparr>"

definition lru_reset :: "'v lru_cache \<Rightarrow> 'v lru_cache" where
  "lru_reset c = c\<lparr>entries := []\<rparr>"

definition lru_has :: "'v lru_cache \<Rightarrow> string \<Rightarrow> bool" where
  "lru_has c k = (k \<in> set (map fst (entries c)))"

definition lru_keys :: "'v lru_cache \<Rightarrow> string list" where
  "lru_keys c = map fst (entries c)"

definition lru_itemCount :: "'v lru_cache \<Rightarrow> nat" where
  "lru_itemCount c = length (entries c)"

definition lru_length :: "'v lru_cache \<Rightarrow> nat" where
  "lru_length c = length (entries c)"

definition lru_prune :: "'v lru_cache \<Rightarrow> 'v lru_cache" where
  "lru_prune c = c"

subsection \<open>The inflight table: a plain object used as a dictionary\<close>

text \<open>
  \<^verbatim>\<open>let loadItemPromises: { [key: string]: Promise<T> } = {}\<close> is an object literal,
  so its prototype is \<^verbatim>\<open>Object.prototype\<close>. The table's own properties are a map from
  keys to promises (a promise is named by a number); a read \<^verbatim>\<open>loadItemPromises[key]\<close>
  that finds no own property continues on the prototype, where the names below are bound
  to functions (and \<^verbatim>\<open>__proto__\<close> to the prototype object), all of them truthy.
  \<^verbatim>\<open>delete\<close> only removes an own property.
\<close>

definition object_prototype_keys :: "string list" where
  "object_prototype_keys =
     [''constructor'', ''__defineGetter__'', ''__defineSetter__'', ''hasOwnProperty'',
      ''__lookupGetter__'', ''__lookupSetter__'', ''isPrototypeOf'',
      ''propertyIsEnumerable'', ''toString'', ''valueOf'', ''__proto__'',
      ''toLocaleString'']"

datatype slot = Absent | OwnPromise nat | ProtoMember string

definition prop_get :: "(string \<rightharpoonup> nat) \<Rightarrow> string \<Rightarrow> slot" where
  "prop_get obj k =
     (case obj k of
        Some p \<Rightarrow> OwnPromise p
      | None \<Rightarrow> if k \<in> set object_prototype_keys then ProtoMember k else Absent)"

fun truthy :: "slot \<Rightarrow> bool" where
  "truthy Absent = False"
| "truthy (OwnPromise p) = True"
| "truthy (ProtoMember m) = True"

subsection \<open>Options, messages, events and the state of one instance\<close>

record reconnection_options =
  allowStaleData :: "bool option"
  retryIntervalUpTo :: "int option"
  retryIntervalIncrease :: "int option"

text \<open>
  \<^verbatim>\<open>RabbitLRUCacheOptions\<close>: of \<^verbatim>\<open>LRUCacheOptions\<close> the fields the inspectors
  read back; \<^verbatim>\<open>amqpConnectOptions\<close> is passed to the bus client unread and is left out.
\<close>

record options =
  name :: string
  opt_max :: nat
  opt_maxAge :: nat
  opt_stale :: bool
  reconnectionOptions :: "reconnection_options option"

text \<open>\<^verbatim>\<open>options.reconnectionOptions?.allowStaleData\<close>, as a condition.\<close>

definition allow_stale_data :: "options \<Rightarrow> bool" where
  "allow_stale_data opts =
     (case reconnectionOptions opts of
        None \<Rightarrow> False
      | Some r \<Rightarrow> (case allowStaleData r of None \<Rightarrow> False | Some b \<Rightarrow> b))"

text \<open>\<^verbatim>\<open>options.reconnectionOptions?.retryIntervalIncrease ?? 1000\<close>\<close>

definition retry_interval_increase :: "options \<Rightarrow> int" where
  "retry_interval_increase opts =
     (case reconnectionOptions opts of
        None \<Rightarrow> 1000
      | Some r \<Rightarrow> (case retryIntervalIncrease r of None \<Rightarrow> 1000 | Some n \<Rightarrow> n))"

text \<open>\<^verbatim>\<open>options.reconnectionOptions?.retryIntervalUpTo ?? 60000\<close>\<close>

definition retry_interval_up_to :: "options \<Rightarrow> int" where
  "retry_interval_up_to opts =
     (case reconnectionOptions opts of
        None \<Rightarrow> 60000
      | Some r \<Rightarrow> (case retryIntervalUpTo r of None \<Rightarrow> 60000 | Some n \<Rightarrow> n))"

text \<open>
  A message of the bus as the consumer reads it: the decoded content and the header
  \<^verbatim>\<open>x-cache-id\<close> (\<open>None\<close> when the header is not set, which reads as
  \<^verbatim>\<open>undefined\<close>).
\<close>

record wire_message =
  content :: string
  x_cache_id :: "string option"

datatype event_name = InvalidationMessageReceived | Reconnecting | Reconnected

text \<open>An emitted event with its arguments.\<close>

datatype event =
    EvInvalidationMessageReceived string "string option"
  | EvReconnecting error int int
  | EvReconnected error int int

text \<open>
  The variables of the closure, and what the instance has done to its surroundings: the
  messages handed to the publisher channel, the events emitted, the registered listeners
  (in registration order, a listener named by a number), the loader invocations (the key
  and the promise each returned) and the \<^verbatim>\<open>getOrLoad\<close> calls suspended at their
  \<^verbatim>\<open>await\<close> (the promise awaited and the key). The emitter calls the listeners
  synchronously, inside \<^verbatim>\<open>emit\<close>; \<open>emitted_at\<close> keeps, for each emitted event in
  order, the entries of the store and the table as they are at that moment, which is what
  a listener of the event finds.
\<close>

record 'v state =
  closing :: bool
  reconnecting :: bool
  cacheId :: string
  cache :: "'v lru_cache"
  loadItemPromises :: "string \<rightharpoonup> nat"
  published :: "wire_message list"
  emitted :: "event list"
  emitted_at :: "((string \<times> 'v jsval) list \<times> (string \<rightharpoonup> nat)) list"
  listeners :: "(event_name \<times> nat) list"
  loader_calls :: "(string \<times> nat) list"
  suspended :: "(nat \<times> string) list"

subsection \<open>The functions of the closure\<close>

text \<open>
  \<^verbatim>\<open>eventEmitter.emit(...)\<close>: the event is recorded, with the store and the table as
  they are when it is emitted. The listeners are the caller's code; they are taken to
  return without throwing and without calling the facade.
\<close>

definition emit :: "'v state \<Rightarrow> event \<Rightarrow> 'v state" where
  "emit s e =
     s\<lparr>emitted := emitted s @ [e],
       emitted_at := emitted_at s @ [(entries (cache s), loadItemPromises s)]\<rparr>"

definition internalReset :: "'v state \<Rightarrow> 'v state" where
  "internalReset s = s\<lparr>loadItemPromises := Map.empty, cache := lru_reset (cache s)\<rparr>"

definition internalDel :: "'v state \<Rightarrow> string \<Rightarrow> 'v state" where
  "internalDel s key =
     (let s1 = (if truthy (prop_get (loadItemPromises s) key)
                then s\<lparr>loadItemPromises := (loadItemPromises s)(key := None)\<rparr>
                else s)
      in s1\<lparr>cache := lru_del (cache s1) key\<rparr>)"

text \<open>
  The constructor, where it succeeds in connecting: the assertions on the options (the
  \<^verbatim>\<open>null\<close> checks are excluded by the option type), then the initial variables.
  \<open>uuid\<close> is the result of \<^verbatim>\<open>uuid.v1()\<close>.
\<close>

definition createRabbitLRUCache :: "options \<Rightarrow> string \<Rightarrow> error + 'v state" where
  "createRabbitLRUCache opts uuid =
     (if name opts = [] then Inl (AssertionError ''options.name is required'')
      else Inr \<lparr>closing = False, reconnecting = False, cacheId = uuid,
                cache = \<lparr>entries = [], lru_max = opt_max opts, lru_maxAge = opt_maxAge opts,
                         lru_allowStale = opt_stale opts\<rparr>,
                loadItemPromises = Map.empty, published = [], emitted = [], emitted_at = [],
      listeners = [],
                loader_calls = [], suspended = []\<rparr>)"

definition assertIsClosingOrClosed :: "'v state \<Rightarrow> error + unit" where
  "assertIsClosingOrClosed s = (if closing s then Inl ClosingError else Inr ())"

definition assertIsClosingOrClosedDecorator ::
  "('v state \<Rightarrow> 'a \<Rightarrow> 'b) \<Rightarrow> 'v state \<Rightarrow> 'a \<Rightarrow> error + 'b" where
  "assertIsClosingOrClosedDecorator fn s args =
     (case assertIsClosingOrClosed s of Inl e \<Rightarrow> Inl e | Inr u \<Rightarrow> Inr (fn s args))"

text \<open>
  \<^verbatim>\<open>publish\<close>: the message handed to the publisher channel is recorded with its
  header; the channel is taken to accept it.
\<close>

definition publish :: "'v state \<Rightarrow> string \<Rightarrow> 'v state" where
  "publish s message =
     (if reconnecting s then s
      else s\<lparr>published := published s @ [\<lparr>content = message, x_cache_id = Some (cacheId s)\<rparr>]\<rparr>)"

subsection \<open>The facade\<close>

definition del :: "'v state \<Rightarrow> string \<Rightarrow> (error + unit) \<times> 'v state" where
  "del s key =
     (case assertIsClosingOrClosed s of
        Inl e \<Rightarrow> (Inl e, s)
      | Inr u \<Rightarrow> (Inr (), internalDel (publish s (''del:'' @ key)) key))"

definition reset :: "'v state \<Rightarrow> (error + unit) \<times> 'v state" where
  "reset s =
     (case assertIsClosingOrClosed s of
        Inl e \<Rightarrow> (Inl e, s)
      | Inr u \<Rightarrow> (Inr (), internalReset (publish s ''reset'')))"

text \<open>
  What a call of \<^verbatim>\<open>getOrLoad\<close> has done when it first gives up control:
  returned the cached item; returned the pending promise of the table (the caller's promise
  settles as that one does); returned what the read of the table found on the prototype;
  or invoked the loader, stored its promise and is suspended awaiting it.
\<close>

datatype 'v load_outcome = Hit "'v jsval" | Joined nat | Inherited string | Awaiting nat

text \<open>
  \<^verbatim>\<open>getOrLoad\<close> up to its \<^verbatim>\<open>await\<close>. The loader is the caller's function of
  type \<^verbatim>\<open>(key: string) => Promise<T>\<close>: invoking it is recorded in
  \<open>loader_calls\<close> with the fresh promise it returns.
\<close>

definition getOrLoad :: "'v state \<Rightarrow> string \<Rightarrow> (error + 'v load_outcome) \<times> 'v state" where
  "getOrLoad s key =
     (case assertIsClosingOrClosed s of
        Inl e \<Rightarrow> (Inl e, s)
      | Inr u \<Rightarrow>
          (let (item, c) = lru_get (cache s) key;
               s1 = s\<lparr>cache := c\<rparr>
           in if item \<noteq> Undefined \<and> item \<noteq> Null then (Inr (Hit item), s1)
              else (case prop_get (loadItemPromises s1) key of
                      OwnPromise p \<Rightarrow> (Inr (Joined p), s1)
                    | ProtoMember m \<Rightarrow> (Inr (Inherited m), s1)
                    | Absent \<Rightarrow>
                        (let p = length (loader_calls s1)
                         in (Inr (Awaiting p),
                             s1\<lparr>loader_calls := loader_calls s1 @ [(key, p)],
                                loadItemPromises := (loadItemPromises s1)(key \<mapsto> p),
                                suspended := suspended s1 @ [(p, key)]\<rparr>)))))"

text \<open>The \<^verbatim>\<open>finally\<close> block of \<^verbatim>\<open>getOrLoad\<close>.\<close>

definition getOrLoad_finally :: "'v state \<Rightarrow> string \<Rightarrow> 'v state" where
  "getOrLoad_finally s key =
     (if truthy (prop_get (loadItemPromises s) key)
      then s\<lparr>loadItemPromises := (loadItemPromises s)(key := None)\<rparr>
      else s)"

text \<open>
  \<^verbatim>\<open>getOrLoad\<close> from its \<^verbatim>\<open>await\<close> on, run when the awaited promise has
  settled: the result is what the call returns (or throws) to its caller.
\<close>

definition getOrLoad_resume ::
  "options \<Rightarrow> 'v state \<Rightarrow> string \<Rightarrow> 'v settled \<Rightarrow> (error + 'v jsval) \<times> 'v state" where
  "getOrLoad_resume opts s key r =
     (case r of
        Rejected e \<Rightarrow> (Inl e, getOrLoad_finally s key)
      | Resolved loadedItem \<Rightarrow>
          (let s1 = (if (allow_stale_data opts \<or> \<not> reconnecting s) \<and>
                        truthy (prop_get (loadItemPromises s) key) \<and>
                        (loadedItem \<noteq> Undefined \<and> loadedItem \<noteq> Null)
                     then s\<lparr>cache := lru_set (cache s) key loadedItem\<rparr>
                     else s)
           in (Inr loadedItem, getOrLoad_finally s1 key)))"

definition has :: "'v state \<Rightarrow> string \<Rightarrow> error + bool" where
  "has = assertIsClosingOrClosedDecorator (\<lambda>s key. lru_has (cache s) key)"

definition keys :: "'v state \<Rightarrow> unit \<Rightarrow> error + string list" where
  "keys = assertIsClosingOrClosedDecorator (\<lambda>s u. lru_keys (cache s))"

definition doesAllowStale :: "'v state \<Rightarrow> error + bool" where
  "doesAllowStale s =
     (case assertIsClosingOrClosed s of Inl e \<Rightarrow> Inl e | Inr u \<Rightarrow> Inr (lru_allowStale (cache s)))"

definition getItemCount :: "'v state \<Rightarrow> error + nat" where
  "getItemCount s =
     (case assertIsClosingOrClosed s of Inl e \<Rightarrow> Inl e | Inr u \<Rightarrow> Inr (lru_itemCount (cache s)))"

definition getLength :: "'v state \<Rightarrow> error + nat" where
  "getLength s =
     (case assertIsClosingOrClosed s of Inl e \<Rightarrow> Inl e | Inr u \<Rightarrow> Inr (lru_length (cache s)))"

definition getMax :: "'v state \<Rightarrow> error + nat" where
  "getMax s =
     (case assertIsClosingOrClosed s of Inl e \<Rightarrow> Inl e | Inr u \<Rightarrow> Inr (lru_max (cache s)))"

definition getMaxAge :: "'v state \<Rightarrow> error + nat" where
  "getMaxAge s =
     (case assertIsClosingOrClosed s of Inl e \<Rightarrow> Inl e | Inr u \<Rightarrow> Inr (lru_maxAge (cache s)))"

definition prune :: "'v state \<Rightarrow> (error + unit) \<times> 'v state" where
  "prune s =
     (case assertIsClosingOrClosed s of
        Inl e \<Rightarrow> (Inl e, s)
      | Inr u \<Rightarrow> (Inr (), s\<lparr>cache := lru_prune (cache s)\<rparr>))"

text \<open>
  \<^verbatim>\<open>close\<close> up to its first \<^verbatim>\<open>await\<close>, and its last statement, reached when the
  consumer, the channels and the connection have been closed.
\<close>

definition close :: "'v state \<Rightarrow> 'v state" where
  "close s = s\<lparr>closing := True\<rparr>"

definition close_resume :: "'v state \<Rightarrow> 'v state" where
  "close_resume s = s\<lparr>cache := lru_reset (cache s)\<rparr>"

text \<open>
  The emitter's \<^verbatim>\<open>addListener\<close> appends; \<^verbatim>\<open>removeListener\<close> removes the most
  recently added instance of the listener, if there is one.
\<close>

definition addListener :: "'v state \<Rightarrow> event_name \<Rightarrow> nat \<Rightarrow> 'v state" where
  "addListener s n fn = s\<lparr>listeners := listeners s @ [(n, fn)]\<rparr>"

definition removeListener :: "'v state \<Rightarrow> event_name \<Rightarrow> nat \<Rightarrow> 'v state" where
  "removeListener s n fn = s\<lparr>listeners := rev (remove1 (n, fn) (rev (listeners s)))\<rparr>"

text \<open>The six listener operations of the facade: none of them can throw.\<close>

definition addInvalidationMessageReceivedListener :: "'v state \<Rightarrow> nat \<Rightarrow> (error + unit) \<times> 'v state" where
  "addInvalidationMessageReceivedListener s fn = (Inr (), addListener s InvalidationMessageReceived fn)"

definition removeInvalidationMessageReceivedListener :: "'v state \<Rightarrow> nat \<Rightarrow> (error + unit) \<times> 'v state" where
  "removeInvalidationMessageReceivedListener s fn = (Inr (), removeListener s InvalidationMessageReceived fn)"

definition addReconnectingListener :: "'v state \<Rightarrow> nat \<Rightarrow> (error + unit) \<times> 'v state" where
  "addReconnectingListener s fn = (Inr (), addListener s Reconnecting fn)"

definition removeReconnectingListener :: "'v state \<Rightarrow> nat \<Rightarrow> (error + unit) \<times> 'v state" where
  "removeReconnectingListener s fn = (Inr (), removeListener s Reconnecting fn)"

definition addReconnectedListener :: "'v state \<Rightarrow> nat \<Rightarrow> (error + unit) \<times> 'v state" where
  "addReconnectedListener s fn = (Inr (), addListener s Reconnected fn)"

definition removeReconnectedListener :: "'v state \<Rightarrow> nat \<Rightarrow> (error + unit) \<times> 'v state" where
  "removeReconnectedListener s fn = (Inr (), removeListener s Reconnected fn)"

subsection \<open>The consumer callback\<close>

text \<open>
  \<^verbatim>\<open>onMessage\<close>; the bus client passes \<^verbatim>\<open>null\<close> (\<open>None\<close>) when the broker
  cancels the consumer.
\<close>

definition onMessage :: "'v state \<Rightarrow> wire_message option \<Rightarrow> (error + unit) \<times> 'v state" where
  "onMessage s msg =
     (case msg of
        None \<Rightarrow> (Inl (Error ''consumer has been cancelled by RabbitMq''), s)
      | Some m \<Rightarrow>
          (let publisherCacheId = x_cache_id m
           in if publisherCacheId = Some (cacheId s) then (Inr (), s)
              else (let s1 = (if content m = ''reset'' then internalReset s
                              else if take 4 (content m) = ''del:''
                                   then internalDel s (drop 4 (content m))
                                   else s)
                    in (Inr (), emit s1 (EvInvalidationMessageReceived (content m) publisherCacheId)))))"

subsection \<open>The connection supervisor\<close>

text \<open>
  \<^verbatim>\<open>handleConnectionError(error, attempt, retryInterval)\<close> up to its first
  \<^verbatim>\<open>await\<close>: \<open>None\<close> when it returns at once because the cache is closing, else the
  incremented attempt with which it goes on.
\<close>

definition handleConnectionError :: "'v state \<Rightarrow> error \<Rightarrow> int \<Rightarrow> int \<Rightarrow> int option \<times> 'v state" where
  "handleConnectionError s err attempt retryInterval =
     (if closing s then (None, s)
      else (let attempt1 = attempt + 1;
                s1 = s\<lparr>reconnecting := True\<rparr>;
                s2 = internalReset s1
            in (Some attempt1, emit s2 (EvReconnecting err attempt1 retryInterval))))"

text \<open>The rest of the \<^verbatim>\<open>try\<close> block, once the connection, publisher and consumer exist.\<close>

definition handleConnectionError_resume :: "'v state \<Rightarrow> error \<Rightarrow> int \<Rightarrow> int \<Rightarrow> 'v state" where
  "handleConnectionError_resume s err attempt retryInterval =
     (let s1 = s\<lparr>reconnecting := False\<rparr>;
          s2 = internalReset s1
      in emit s2 (EvReconnected err attempt retryInterval))"

text \<open>
  The \<^verbatim>\<open>catch\<close> block: the retry interval with which the handler is scheduled again
  (after that many milliseconds, with the caught error and the same attempt).
\<close>

definition handleConnectionError_catch :: "options \<Rightarrow> int \<Rightarrow> int" where
  "handleConnectionError_catch opts retryInterval =
     (if retryInterval < retry_interval_up_to opts
      then retryInterval + retry_interval_increase opts
      else retryInterval)"

text \<open>
  One reconnect episode run to the end without other operations in between: the handler
  is entered, and each element of the list tells how the next attempt to reattach ends,
  \<open>None\<close> for success and \<open>Some e\<close> for a failure with error \<open>e\<close>, after which the
  timer enters the handler again with what the \<^verbatim>\<open>catch\<close> block bound.
\<close>

fun reconnect_episode ::
  "options \<Rightarrow> 'v state \<Rightarrow> error \<Rightarrow> int \<Rightarrow> int \<Rightarrow> error option list \<Rightarrow> 'v state" where
  "reconnect_episode opts s err attempt retryInterval [] = s"
| "reconnect_episode opts s err attempt retryInterval (outcome # rest) =
     (case handleConnectionError s err attempt retryInterval of
        (None, s1) \<Rightarrow> s1
      | (Some attempt1, s1) \<Rightarrow>
          (case outcome of
             None \<Rightarrow> handleConnectionError_resume s1 err attempt1 retryInterval
           | Some e \<Rightarrow>
               reconnect_episode opts s1 e attempt1
                 (handleConnectionError_catch opts retryInterval) rest))"

text \<open>The retry intervals the \<^verbatim>\<open>reconnecting\<close> events of a log carry, in order.\<close>

fun reconnecting_intervals :: "event list \<Rightarrow> int list" where
  "reconnecting_intervals [] = []"
| "reconnecting_intervals (EvReconnecting err attempt retryInterval # es) =
     retryInterval # reconnecting_intervals es"
| "reconnecting_intervals (e # es) = reconnecting_intervals es"

subsection \<open>Runs of one instance\<close>

text \<open>
  What can happen to an instance, one uninterrupted piece of code at a time: a call of the
  facade that changes the state, the settling of a loader's promise (which resumes the call
  suspended on it), a delivery to the consumer callback, an entry into the connection error
  handler (from the connection's event with attempt and interval \<open>0\<close>, or from the timer)
  and the success of its reattach. The inspectors return a value and leave the state as it
  is.
\<close>

datatype 'v action =
    GetOrLoad string
  | Settle nat "'v settled"
  | Del string
  | Reset
  | Prune
  | Close
  | CloseResume
  | AddListener event_name nat
  | RemoveListener event_name nat
  | Message "wire_message option"
  | HandleConnectionError error int int
  | HandleConnectionErrorResume error int int

definition step :: "options \<Rightarrow> 'v state \<Rightarrow> 'v action \<Rightarrow> 'v state" where
  "step opts s a =
     (case a of
        GetOrLoad key \<Rightarrow> snd (getOrLoad s key)
      | Settle p r \<Rightarrow>
          (case map_of (suspended s) p of
             None \<Rightarrow> s
           | Some key \<Rightarrow>
               snd (getOrLoad_resume opts
                      (s\<lparr>suspended := filter (\<lambda>e. fst e \<noteq> p) (suspended s)\<rparr>) key r))
      | Del key \<Rightarrow> snd (del s key)
      | Reset \<Rightarrow> snd (reset s)
      | Prune \<Rightarrow> snd (prune s)
      | Close \<Rightarrow> close s
      | CloseResume \<Rightarrow> close_resume s
      | AddListener n fn \<Rightarrow> addListener s n fn
      | RemoveListener n fn \<Rightarrow> removeListener s n fn
      | Message msg \<Rightarrow> snd (onMessage s msg)
      | HandleConnectionError err attempt retryInterval \<Rightarrow>
          snd (handleConnectionError s err attempt retryInterval)
      | HandleConnectionErrorResume err attempt retryInterval \<Rightarrow>
          handleConnectionError_resume s err attempt retryInterval)"

definition run :: "options \<Rightarrow> 'v state \<Rightarrow> 'v action list \<Rightarrow> 'v state" where
  "run opts s as = foldl (step opts) s as"

inductive reachable :: "options \<Rightarrow> 'v state \<Rightarrow> bool" for opts :: options where
  created: "createRabbitLRUCache opts uuid = Inr s \<Longrightarrow> reachable opts s"
| stepped: "reachable opts s \<Longrightarrow> reachable opts (step opts s a)"

text \<open>\<^verbatim>\<open>getOrLoad(key, loader)\<close> called \<open>n\<close> times in a row, with the results in order.\<close>

fun getOrLoad_times ::
  "'v state \<Rightarrow> string \<Rightarrow> nat \<Rightarrow> (error + 'v load_outcome) list \<times> 'v state" where
  "getOrLoad_times s key 0 = ([], s)"
| "getOrLoad_times s key (Suc n) =
     (case getOrLoad s key of
        (r, s1) \<Rightarrow> (case getOrLoad_times s1 key n of (rs, s2) \<Rightarrow> (r # rs, s2)))"

text \<open>No entry of the store holds \<^verbatim>\<open>undefined\<close> or \<^verbatim>\<open>null\<close>.\<close>

definition well_defined_entries :: "'v lru_cache \<Rightarrow> bool" where
  "well_defined_entries c = list_all (\<lambda>e. snd e \<noteq> Undefined \<and> snd e \<noteq> Null) (entries c)"

subsection \<open>Concrete instances\<close>

definition default_options :: options where
  "default_options =
     \<lparr>name = ''users'', opt_max = 0, opt_maxAge = 0, opt_stale = False,
      reconnectionOptions = None\<rparr>"

definition stale_options :: options where
  "stale_options =
     \<lparr>name = ''users'', opt_max = 0, opt_maxAge = 0, opt_stale = False,
      reconnectionOptions =
        Some \<lparr>allowStaleData = Some True, retryIntervalUpTo = None,
              retryIntervalIncrease = None\<rparr>\<rparr>"

definition uneven_options :: options where
  "uneven_options =
     \<lparr>name = ''users'', opt_max = 0, opt_maxAge = 0, opt_stale = False,
      reconnectionOptions =
        Some \<lparr>allowStaleData = None, retryIntervalUpTo = Some 2500,
              retryIntervalIncrease = Some 1000\<rparr>\<rparr>"

definition fresh_state :: "nat state" where
  "fresh_state =
     \<lparr>closing = False, reconnecting = False, cacheId = ''cache-A'',
      cache = \<lparr>entries = [], lru_max = 0, lru_maxAge = 0, lru_allowStale = False\<rparr>,
      loadItemPromises = Map.empty, published = [], emitted = [], emitted_at = [],
      listeners = [],
      loader_calls = [], suspended = []\<rparr>"

text \<open>
  An instance configured with \<^verbatim>\<open>allowStaleData: true\<close> that lost its connection,
  then loaded \<^verbatim>\<open>"z"\<close> to the end and has a load of \<^verbatim>\<open>"w"\<close> in flight.
\<close>

definition stale_window_state :: "nat state" where
  "stale_window_state =
     run stale_options fresh_state
       [HandleConnectionError (Error ''connection lost'') 0 0, GetOrLoad ''z'',
        Settle 0 (Resolved (Val 1)), GetOrLoad ''w'']"

text \<open>
  An instance with default options after two loads run to the end, the first resolving
  with a value and the second with \<^verbatim>\<open>null\<close>.
\<close>

definition loaded_state :: "nat state" where
  "loaded_state =
     run default_options fresh_state
       [GetOrLoad ''x'', Settle 0 (Resolved (Val 7)), GetOrLoad ''n'', Settle 1 (Resolved Null)]"

text \<open>
  The same instance after it then lost its connection and a load of \<^verbatim>\<open>"y"\<close>, begun
  after the loss, ran to the end while the supervisor was still reconnecting.
\<close>

definition default_window_state :: "nat state" where
  "default_window_state =
     run default_options loaded_state
       [HandleConnectionError (Error ''connection lost'') 0 0, GetOrLoad ''y'',
        Settle 2 (Resolved (Val 9))]"

section \<open>Properties\<close>

subsection \<open>The store\<close>

lemma lru_get_value:
  "fst (lru_get c k) = (case map_of (entries c) k of None \<Rightarrow> Undefined | Some v \<Rightarrow> v)"
  by (simp add: lru_get_def split: option.splits)

lemma lru_has_map_of: "lru_has c k \<longleftrightarrow> map_of (entries c) k \<noteq> None"
  by (simp add: lru_has_def map_of_eq_None_iff)

lemma lru_get_miss: "\<not> lru_has c k \<Longrightarrow> lru_get c k = (Undefined, c)"
  by (simp add: lru_get_def lru_has_map_of)

lemma lru_get_entries_subset: "set (entries (snd (lru_get c k))) \<subseteq> set (entries c)"
  by (auto simp: lru_get_def lru_without_def dest: map_of_SomeD split: option.splits)

lemma lru_trim_head: "lru_trim m (x # xs) = x # (if m = 0 then xs else take (m - 1) xs)"
  by (cases m) (simp_all add: lru_trim_def)

lemma lru_get_after_set: "fst (lru_get (lru_set c k v) k) = v"
  by (simp add: lru_get_value lru_set_def lru_trim_head)

lemma lru_has_after_set: "lru_has (lru_set c k v) k"
  by (simp add: lru_set_def lru_has_def lru_trim_head)

lemma lru_set_entries_subset:
  "set (entries (lru_set c k v)) \<subseteq> insert (k, v) (set (entries c))"
  by (auto simp: lru_set_def lru_trim_def lru_without_def dest: in_set_takeD)

lemma lru_has_after_del: "\<not> lru_has (lru_del c k) k"
  by (auto simp: lru_del_def lru_has_def lru_without_def)

lemma lru_del_idem: "lru_del (lru_del c k) k = lru_del c k"
  by (simp add: lru_del_def lru_without_def)

lemma prop_get_Absent:
  "prop_get obj k = Absent \<longleftrightarrow> obj k = None \<and> k \<notin> set object_prototype_keys"
  by (simp add: prop_get_def split: option.splits)

lemma fresh_state_created:
  "createRabbitLRUCache default_options ''cache-A'' = Inr fresh_state"
  by (simp add: createRabbitLRUCache_def default_options_def fresh_state_def)

subsection \<open>Coalescing of concurrent loads\<close>

text \<open>
  A call that misses the store and finds nothing under the key, neither in the table nor on
  its prototype, invokes the loader and stores the promise.
\<close>

lemma getOrLoad_starts_load:
  assumes "\<not> closing s" and "\<not> lru_has (cache s) k"
    and "prop_get (loadItemPromises s) k = Absent"
  shows "getOrLoad s k =
           (Inr (Awaiting (length (loader_calls s))),
            s\<lparr>loader_calls := loader_calls s @ [(k, length (loader_calls s))],
              loadItemPromises := (loadItemPromises s)(k \<mapsto> length (loader_calls s)),
              suspended := suspended s @ [(length (loader_calls s), k)]\<rparr>)"
  using assms by (simp add: getOrLoad_def assertIsClosingOrClosed_def lru_get_miss Let_def)

text \<open>A call that misses the store and finds a promise in the table returns that promise.\<close>

lemma getOrLoad_joins:
  assumes "\<not> closing s" and "\<not> lru_has (cache s) k" and "loadItemPromises s k = Some p"
  shows "getOrLoad s k = (Inr (Joined p), s)"
  using assms by (simp add: getOrLoad_def assertIsClosingOrClosed_def lru_get_miss prop_get_def)

lemma getOrLoad_times_joins:
  assumes "\<not> closing s" and "\<not> lru_has (cache s) k" and "loadItemPromises s k = Some p"
  shows "getOrLoad_times s k n = (replicate n (Inr (Joined p)), s)"
  using assms by (induction n) (simp_all add: getOrLoad_joins)

text \<open>
  For a key that is not a property name of \<^verbatim>\<open>Object.prototype\<close>, any number of calls
  in a row that start while the key is neither stored nor in flight invoke the loader once:
  the first call stores the promise and the others return it.
\<close>

lemma getOrLoad_coalesces:
  assumes "\<not> closing s" and "\<not> lru_has (cache s) k" and "loadItemPromises s k = None"
    and "k \<notin> set object_prototype_keys"
  shows "getOrLoad_times s k (Suc n) =
           (Inr (Awaiting (length (loader_calls s))) #
              replicate n (Inr (Joined (length (loader_calls s)))),
            s\<lparr>loader_calls := loader_calls s @ [(k, length (loader_calls s))],
              loadItemPromises := (loadItemPromises s)(k \<mapsto> length (loader_calls s)),
              suspended := suspended s @ [(length (loader_calls s), k)]\<rparr>)"
proof -
  let ?p = "length (loader_calls s)"
  let ?s1 = "s\<lparr>loader_calls := loader_calls s @ [(k, ?p)],
              loadItemPromises := (loadItemPromises s)(k \<mapsto> ?p),
              suspended := suspended s @ [(?p, k)]\<rparr>"
  have first: "getOrLoad s k = (Inr (Awaiting ?p), ?s1)"
    using assms by (intro getOrLoad_starts_load) (simp_all add: prop_get_Absent)
  have rest: "getOrLoad_times ?s1 k n = (replicate n (Inr (Joined ?p)), ?s1)"
    using assms by (intro getOrLoad_times_joins) simp_all
  show ?thesis by (simp add: first rest)
qed

text \<open>
  C1. For every key and every set of concurrent \<^verbatim>\<open>getOrLoad\<close> calls that begin
  while the key is absent from the store, the loader is invoked exactly once. The program
  does so for the keys of \<open>getOrLoad_coalesces\<close> and not for a key that names a property
  of \<^verbatim>\<open>Object.prototype\<close>: on a new cache, three calls of
  \<^verbatim>\<open>getOrLoad("constructor", loader)\<close> in a row invoke the loader not once but never,
  each returns what the table inherits under that name, and the state is left as it was.
\<close>

theorem getOrLoad_constructor_never_loads:
  "getOrLoad_times fresh_state ''constructor'' 3 =
     ([Inr (Inherited ''constructor''), Inr (Inherited ''constructor''),
       Inr (Inherited ''constructor'')], fresh_state)
   \<and> loader_calls (snd (getOrLoad_times fresh_state ''constructor'' 3)) = []"
proof -
  have one: "getOrLoad fresh_state ''constructor'' = (Inr (Inherited ''constructor''), fresh_state)"
    by (simp add: getOrLoad_def assertIsClosingOrClosed_def fresh_state_def lru_get_def
        prop_get_def object_prototype_keys_def)
  have three: "getOrLoad_times fresh_state ''constructor'' (Suc (Suc (Suc 0))) =
      ([Inr (Inherited ''constructor''), Inr (Inherited ''constructor''),
        Inr (Inherited ''constructor'')], fresh_state)"
    by (simp add: one)
  have calls: "loader_calls fresh_state = []"
    by (simp add: fresh_state_def)
  show ?thesis
    using three calls by (simp add: numeral_3_eq_3)
qed

subsection \<open>Completion of a load\<close>

text \<open>The loader is only ever invoked for a key that is not inherited by the table.\<close>

lemma getOrLoad_invokes_loader:
  assumes "getOrLoad s0 k = (Inr (Awaiting p), s1)"
  shows "k \<notin> set object_prototype_keys \<and> p = length (loader_calls s0) \<and>
         loader_calls s1 = loader_calls s0 @ [(k, p)] \<and> loadItemPromises s1 k = Some p"
  using assms
  by (auto simp: getOrLoad_def assertIsClosingOrClosed_def Let_def prop_get_def
      split: if_splits prod.splits option.splits slot.splits)

lemma getOrLoad_finally_table:
  "loadItemPromises (getOrLoad_finally s k) k = None \<and>
   cache (getOrLoad_finally s k) = cache s"
  by (cases "loadItemPromises s k") (simp_all add: getOrLoad_finally_def prop_get_def)

text \<open>
  What the completion does, for a key the table does not inherit (the only keys the loader
  is ever invoked for): the call returns the resolved value and the table has no entry for
  the key afterwards, in every case; \<^verbatim>\<open>cache.set\<close> is called if the value is neither
  \<^verbatim>\<open>null\<close> nor \<^verbatim>\<open>undefined\<close>, the table holds some entry for the key and the
  supervisor is not reconnecting or \<^verbatim>\<open>allowStaleData\<close> is true; otherwise the store is
  left as it is.
\<close>

lemma getOrLoad_resume_effect:
  assumes "k \<notin> set object_prototype_keys"
  shows "fst (getOrLoad_resume opts s k (Resolved v)) = Inr v
     \<and> loadItemPromises (snd (getOrLoad_resume opts s k (Resolved v))) k = None
     \<and> cache (snd (getOrLoad_resume opts s k (Resolved v))) =
         (if (v \<noteq> Undefined \<and> v \<noteq> Null) \<and> loadItemPromises s k \<noteq> None
               \<and> (\<not> reconnecting s \<or> allow_stale_data opts)
          then lru_set (cache s) k v else cache s)"
proof -
  from assms have entry:
    "truthy (prop_get (loadItemPromises s) k) \<longleftrightarrow> loadItemPromises s k \<noteq> None"
    by (cases "loadItemPromises s k") (simp_all add: prop_get_def)
  show ?thesis
    by (auto simp: getOrLoad_resume_def Let_def entry getOrLoad_finally_table)
qed

text \<open>
  C2. The value a loader resolves with is stored if and only if it is neither
  \<^verbatim>\<open>null\<close> nor \<^verbatim>\<open>undefined\<close>, the table still contains the entry the call placed
  for the key, and the supervisor is not reconnecting or \<^verbatim>\<open>allowStaleData\<close> is true;
  the value is returned and the entry removed in every case. The program tests that the
  table holds an entry under the key, not that the entry is the call's own. On a new
  cache: a first \<^verbatim>\<open>getOrLoad("x", loader)\<close> invokes the loader and places promise
  \<open>0\<close>; \<^verbatim>\<open>del("x")\<close> removes that entry; a second \<^verbatim>\<open>getOrLoad("x", loader)\<close>
  invokes the loader again and places promise \<open>1\<close>. When promise \<open>0\<close> then resolves
  with \<open>1\<close>, the table holds promise \<open>1\<close> and not the first call's entry, yet the first
  call stores its value, loaded before the delete, and removes the second call's entry;
  when promise \<open>1\<close> resolves with \<open>2\<close>, that value is not stored and the store keeps
  the older one.
\<close>

theorem getOrLoad_stores_value_of_deleted_load:
  "fst (getOrLoad fresh_state ''x'') = Inr (Awaiting 0)
   \<and> loadItemPromises (snd (getOrLoad fresh_state ''x'')) ''x'' = Some 0
   \<and> loadItemPromises (run default_options fresh_state [GetOrLoad ''x'', Del ''x'']) ''x'' = None
   \<and> fst (getOrLoad (run default_options fresh_state [GetOrLoad ''x'', Del ''x'']) ''x'') =
        Inr (Awaiting 1)
   \<and> loadItemPromises (run default_options fresh_state
        [GetOrLoad ''x'', Del ''x'', GetOrLoad ''x'']) ''x'' = Some 1
   \<and> entries (cache (run default_options fresh_state
        [GetOrLoad ''x'', Del ''x'', GetOrLoad ''x''])) = []
   \<and> fst (getOrLoad_resume default_options
        (run default_options fresh_state [GetOrLoad ''x'', Del ''x'', GetOrLoad ''x''])
        ''x'' (Resolved (Val 1))) = Inr (Val 1)
   \<and> entries (cache (run default_options fresh_state
        [GetOrLoad ''x'', Del ''x'', GetOrLoad ''x'', Settle 0 (Resolved (Val 1))])) =
       [(''x'', Val 1)]
   \<and> loadItemPromises (run default_options fresh_state
        [GetOrLoad ''x'', Del ''x'', GetOrLoad ''x'', Settle 0 (Resolved (Val 1))]) ''x'' = None
   \<and> entries (cache (run default_options fresh_state
        [GetOrLoad ''x'', Del ''x'', GetOrLoad ''x'', Settle 0 (Resolved (Val 1)),
         Settle 1 (Resolved (Val 2))])) = [(''x'', Val 1)]"
  by (simp add: run_def step_def fresh_state_def default_options_def
      getOrLoad_def assertIsClosingOrClosed_def lru_get_def prop_get_def
      object_prototype_keys_def getOrLoad_resume_def getOrLoad_finally_def
      allow_stale_data_def lru_set_def lru_trim_def lru_without_def Let_def
      del_def publish_def internalDel_def lru_del_def)

subsection \<open>Invalidation messages\<close>

text \<open>
  C3. A message whose \<^verbatim>\<open>x-cache-id\<close> header equals the local \<^verbatim>\<open>cacheId\<close> leaves
  the whole state as it is (the store, the table and the log of emitted events included);
  for a message whose header differs the callback returns normally and emits
  \<^verbatim>\<open>invalidation-message-received\<close> with the content and the publisher's id.
\<close>

theorem onMessage_filters_own_messages:
  "(x_cache_id m = Some (cacheId s) \<longrightarrow> onMessage s (Some m) = (Inr (), s))
   \<and> (x_cache_id m \<noteq> Some (cacheId s) \<longrightarrow>
        fst (onMessage s (Some m)) = Inr ()
        \<and> emitted (snd (onMessage s (Some m))) =
            emitted s @ [EvInvalidationMessageReceived (content m) (x_cache_id m)])"
  by (simp add: onMessage_def Let_def emit_def internalReset_def internalDel_def)

theorem onMessage_filters_own_messages_witness:
  "onMessage fresh_state (Some \<lparr>content = ''reset'', x_cache_id = Some ''cache-A''\<rparr>) =
     (Inr (), fresh_state)
   \<and> emitted (snd (onMessage fresh_state
        (Some \<lparr>content = ''del:x'', x_cache_id = Some ''cache-B''\<rparr>))) =
       [EvInvalidationMessageReceived ''del:x'' (Some ''cache-B'')]"
  using onMessage_filters_own_messages
      [of "\<lparr>content = ''reset'', x_cache_id = Some ''cache-A''\<rparr>" fresh_state]
    onMessage_filters_own_messages
      [of "\<lparr>content = ''del:x'', x_cache_id = Some ''cache-B''\<rparr>" fresh_state]
  by (simp add: fresh_state_def)

subsection \<open>Deleting and resetting\<close>

lemma internalDel_effect:
  "cache (internalDel s k) = lru_del (cache s) k
   \<and> loadItemPromises (internalDel s k) = (loadItemPromises s)(k := None)
   \<and> published (internalDel s k) = published s
   \<and> closing (internalDel s k) = closing s
   \<and> cacheId (internalDel s k) = cacheId s"
  by (cases "loadItemPromises s k") (auto simp: internalDel_def Let_def prop_get_def)

lemma del_effect:
  "cache (snd (del s k)) = (if closing s then cache s else lru_del (cache s) k)
   \<and> loadItemPromises (snd (del s k)) =
       (if closing s then loadItemPromises s else (loadItemPromises s)(k := None))
   \<and> closing (snd (del s k)) = closing s"
  by (simp add: del_def assertIsClosingOrClosed_def internalDel_effect publish_def)

lemma del_published:
  "published (snd (del s k)) =
     (if closing s \<or> reconnecting s then published s
      else published s @ [\<lparr>content = ''del:'' @ k, x_cache_id = Some (cacheId s)\<rparr>])"
  by (simp add: del_def assertIsClosingOrClosed_def internalDel_effect publish_def)

lemma onMessage_del_effect:
  assumes "content m = ''del:'' @ k"
  shows "cache (snd (onMessage t (Some m))) =
     (if x_cache_id m = Some (cacheId t) then cache t else lru_del (cache t) k)
   \<and> loadItemPromises (snd (onMessage t (Some m))) =
     (if x_cache_id m = Some (cacheId t) then loadItemPromises t
      else (loadItemPromises t)(k := None))
   \<and> cacheId (snd (onMessage t (Some m))) = cacheId t"
  using assms by (simp add: onMessage_def Let_def emit_def internalDel_effect)

lemma stale_window_state_eq:
  "stale_window_state =
     \<lparr>closing = False, reconnecting = True, cacheId = ''cache-A'',
      cache = \<lparr>entries = [(''z'', Val 1)], lru_max = 0, lru_maxAge = 0,
               lru_allowStale = False\<rparr>,
      loadItemPromises = [''w'' \<mapsto> 1], published = [],
      emitted = [EvReconnecting (Error ''connection lost'') 1 0],
      emitted_at = [([], Map.empty)], listeners = [],
      loader_calls = [(''z'', 0), (''w'', 1)], suspended = [(1, ''w'')]\<rparr>"
  by (simp add: stale_window_state_def run_def step_def fresh_state_def stale_options_def
      handleConnectionError_def internalReset_def lru_reset_def emit_def getOrLoad_def
      assertIsClosingOrClosed_def lru_get_def prop_get_def object_prototype_keys_def
      getOrLoad_resume_def getOrLoad_finally_def allow_stale_data_def lru_set_def
      lru_trim_def lru_without_def Let_def fun_upd_twist)

text \<open>
  C6. While the supervisor is reconnecting (and the cache is not closing), \<^verbatim>\<open>del(k)\<close>
  and \<^verbatim>\<open>reset()\<close> return normally and hand no message to the publisher channel, and
  the local change is made all the same: after \<^verbatim>\<open>del(k)\<close> the store is the old one
  without \<open>k\<close> and the table has no entry for \<open>k\<close>; after \<^verbatim>\<open>reset()\<close> both are empty.
\<close>

theorem publish_dropped_while_reconnecting:
  assumes "reconnecting s" and "\<not> closing s"
  shows "fst (del s k) = Inr ()
     \<and> published (snd (del s k)) = published s
     \<and> cache (snd (del s k)) = lru_del (cache s) k
     \<and> \<not> lru_has (cache (snd (del s k))) k
     \<and> loadItemPromises (snd (del s k)) = (loadItemPromises s)(k := None)
     \<and> fst (reset s) = Inr ()
     \<and> published (snd (reset s)) = published s
     \<and> entries (cache (snd (reset s))) = []
     \<and> loadItemPromises (snd (reset s)) = Map.empty"
  using assms
  by (simp add: del_def reset_def assertIsClosingOrClosed_def publish_def internalDel_effect
      lru_has_after_del internalReset_def lru_reset_def)

theorem publish_dropped_while_reconnecting_witness:
  "reconnecting stale_window_state \<and> \<not> closing stale_window_state
   \<and> entries (cache stale_window_state) = [(''z'', Val 1)]
   \<and> loadItemPromises stale_window_state ''w'' = Some 1
   \<and> fst (del stale_window_state ''z'') = Inr ()
   \<and> published (snd (del stale_window_state ''z'')) = []
   \<and> entries (cache (snd (del stale_window_state ''z''))) = []
   \<and> loadItemPromises (snd (del stale_window_state ''w'')) ''w'' = None
   \<and> fst (reset stale_window_state) = Inr ()
   \<and> published (snd (reset stale_window_state)) = []
   \<and> entries (cache (snd (reset stale_window_state))) = []
   \<and> loadItemPromises (snd (reset stale_window_state)) ''w'' = None"
proof -
  have pre: "reconnecting stale_window_state" "\<not> closing stale_window_state"
    by (simp_all add: stale_window_state_eq)
  have now: "entries (cache stale_window_state) = [(''z'', Val 1)]"
    "loadItemPromises stale_window_state ''w'' = Some 1"
    "published stale_window_state = []"
    by (simp_all add: stale_window_state_eq)
  have gone: "entries (lru_del (cache stale_window_state) ''z'') = []"
    by (simp add: stale_window_state_eq lru_del_def lru_without_def)
  show ?thesis
    using publish_dropped_while_reconnecting [OF pre, of "''z''"]
      publish_dropped_while_reconnecting [OF pre, of "''w''"]
    by (simp add: pre now gone)
qed

text \<open>
  C9. Calling \<^verbatim>\<open>del(k)\<close> twice leaves the store and the table as calling it once
  does, in every state. The calls publish nothing but the message \<^verbatim>\<open>del:<k>\<close> with
  the caller's id; on any instance \<open>t\<close> that message removes \<open>k\<close> from the store (unless
  it is the instance's own), and delivering it twice leaves the store and the table of
  \<open>t\<close> as delivering it once does.
\<close>

theorem del_twice_is_del_once:
  "cache (snd (del (snd (del s k)) k)) = cache (snd (del s k))
   \<and> loadItemPromises (snd (del (snd (del s k)) k)) = loadItemPromises (snd (del s k))
   \<and> set (published (snd (del (snd (del s k)) k)))
        \<subseteq> insert \<lparr>content = ''del:'' @ k, x_cache_id = Some (cacheId s)\<rparr>
            (set (published s))
   \<and> cache (snd (onMessage t
        (Some \<lparr>content = ''del:'' @ k, x_cache_id = Some (cacheId s)\<rparr>))) =
       (if cacheId s = cacheId t then cache t else lru_del (cache t) k)
   \<and> cache (snd (onMessage
        (snd (onMessage t (Some \<lparr>content = ''del:'' @ k, x_cache_id = Some (cacheId s)\<rparr>)))
        (Some \<lparr>content = ''del:'' @ k, x_cache_id = Some (cacheId s)\<rparr>))) =
       cache (snd (onMessage t
        (Some \<lparr>content = ''del:'' @ k, x_cache_id = Some (cacheId s)\<rparr>)))
   \<and> loadItemPromises (snd (onMessage
        (snd (onMessage t (Some \<lparr>content = ''del:'' @ k, x_cache_id = Some (cacheId s)\<rparr>)))
        (Some \<lparr>content = ''del:'' @ k, x_cache_id = Some (cacheId s)\<rparr>))) =
       loadItemPromises (snd (onMessage t
        (Some \<lparr>content = ''del:'' @ k, x_cache_id = Some (cacheId s)\<rparr>)))"
proof -
  define m where "m = \<lparr>content = ''del:'' @ k, x_cache_id = Some (cacheId s)\<rparr>"
  have m: "content m = ''del:'' @ k" "x_cache_id m = Some (cacheId s)"
    by (simp_all add: m_def)
  have local: "cache (snd (del (snd (del s k)) k)) = cache (snd (del s k))"
    "loadItemPromises (snd (del (snd (del s k)) k)) = loadItemPromises (snd (del s k))"
    by (simp_all add: del_effect lru_del_idem)
  have id: "cacheId (snd (del s k)) = cacheId s"
    by (simp add: del_def assertIsClosingOrClosed_def internalDel_effect publish_def)
  have sent: "set (published (snd (del (snd (del s k)) k))) \<subseteq> insert m (set (published s))"
    unfolding m_def
    by (auto simp: del_published [of "snd (del s k)"] del_published [of s] id)
  have once: "cache (snd (onMessage t (Some m))) =
       (if cacheId s = cacheId t then cache t else lru_del (cache t) k)"
    using onMessage_del_effect [OF m(1), of t] by (simp add: m)
  have twice: "cache (snd (onMessage (snd (onMessage t (Some m))) (Some m))) =
       cache (snd (onMessage t (Some m)))"
    "loadItemPromises (snd (onMessage (snd (onMessage t (Some m))) (Some m))) =
       loadItemPromises (snd (onMessage t (Some m)))"
    using onMessage_del_effect [OF m(1), of t]
      onMessage_del_effect [OF m(1), of "snd (onMessage t (Some m))"]
    by (simp_all add: m lru_del_idem)
  show ?thesis
    using local sent once twice unfolding m_def by blast
qed

subsection \<open>After close\<close>

lemma closing_persists: "closing s \<Longrightarrow> closing (step opts s a)"
  by (cases a)
     (auto simp: step_def getOrLoad_def del_def reset_def prune_def assertIsClosingOrClosed_def
        close_def close_resume_def addListener_def removeListener_def onMessage_def
        handleConnectionError_def handleConnectionError_resume_def getOrLoad_resume_def
        getOrLoad_finally_def internalReset_def internalDel_def emit_def Let_def
        split: option.splits settled.splits)

text \<open>
  C5, as stated, says that the six listener operations raise \<^verbatim>\<open>ClosingError\<close> once
  \<^verbatim>\<open>close\<close> has been invoked. They do not: none of the six calls
  \<^verbatim>\<open>assertIsClosingOrClosed\<close>. On a cache that has been closed,
  \<^verbatim>\<open>addInvalidationMessageReceivedListener\<close> returns normally and registers the
  listener.
\<close>

theorem listener_operations_after_close:
  "closing (close fresh_state)
   \<and> fst (addInvalidationMessageReceivedListener (close fresh_state) 0) \<noteq> Inl ClosingError
   \<and> listeners (snd (addInvalidationMessageReceivedListener (close fresh_state) 0)) =
       [(InvalidationMessageReceived, 0)]"
  by (simp add: close_def addInvalidationMessageReceivedListener_def addListener_def
      fresh_state_def)

text \<open>
  C5, amended. \<^verbatim>\<open>close\<close> sets \<^verbatim>\<open>closing\<close>, and nothing that happens to the
  instance afterwards unsets it. While it is set, \<^verbatim>\<open>getOrLoad\<close>, \<^verbatim>\<open>del\<close>,
  \<^verbatim>\<open>reset\<close>, \<^verbatim>\<open>has\<close>, \<^verbatim>\<open>keys\<close>, \<^verbatim>\<open>doesAllowStale\<close>,
  \<^verbatim>\<open>getItemCount\<close>, \<^verbatim>\<open>getLength\<close>, \<^verbatim>\<open>getMax\<close>, \<^verbatim>\<open>getMaxAge\<close> and
  \<^verbatim>\<open>prune\<close> raise \<^verbatim>\<open>ClosingError\<close> and change nothing; the six listener operations
  do not raise and add or remove the listener as before.
\<close>

theorem closed_facade_raises_ClosingError:
  assumes "closing s"
  shows "getOrLoad s k = (Inl ClosingError, s)
     \<and> del s k = (Inl ClosingError, s)
     \<and> reset s = (Inl ClosingError, s)
     \<and> has s k = Inl ClosingError
     \<and> keys s () = Inl ClosingError
     \<and> doesAllowStale s = Inl ClosingError
     \<and> getItemCount s = Inl ClosingError
     \<and> getLength s = Inl ClosingError
     \<and> getMax s = Inl ClosingError
     \<and> getMaxAge s = Inl ClosingError
     \<and> prune s = (Inl ClosingError, s)
     \<and> addInvalidationMessageReceivedListener s fn =
          (Inr (), addListener s InvalidationMessageReceived fn)
     \<and> removeInvalidationMessageReceivedListener s fn =
          (Inr (), removeListener s InvalidationMessageReceived fn)
     \<and> addReconnectingListener s fn = (Inr (), addListener s Reconnecting fn)
     \<and> removeReconnectingListener s fn = (Inr (), removeListener s Reconnecting fn)
     \<and> addReconnectedListener s fn = (Inr (), addListener s Reconnected fn)
     \<and> removeReconnectedListener s fn = (Inr (), removeListener s Reconnected fn)
     \<and> closing (close s0)
     \<and> closing (step opts s a)"
  using assms
  by (simp add: getOrLoad_def del_def reset_def has_def keys_def doesAllowStale_def
      getItemCount_def getLength_def getMax_def getMaxAge_def prune_def
      assertIsClosingOrClosedDecorator_def assertIsClosingOrClosed_def
      addInvalidationMessageReceivedListener_def removeInvalidationMessageReceivedListener_def
      addReconnectingListener_def removeReconnectingListener_def
      addReconnectedListener_def removeReconnectedListener_def close_def closing_persists)

theorem closed_facade_raises_ClosingError_witness:
  "closing (close fresh_state)
   \<and> getOrLoad (close fresh_state) ''x'' = (Inl ClosingError, close fresh_state)
   \<and> del (close fresh_state) ''x'' = (Inl ClosingError, close fresh_state)
   \<and> has (close fresh_state) ''x'' = Inl ClosingError
   \<and> getItemCount (close fresh_state) = Inl ClosingError
   \<and> fst (addReconnectingListener (close fresh_state) 3) = Inr ()
   \<and> listeners (snd (addReconnectingListener (close fresh_state) 3)) = [(Reconnecting, 3)]"
proof -
  have closed: "closing (close fresh_state)"
    by (simp add: close_def)
  have registered:
    "listeners (addListener (close fresh_state) Reconnecting 3) = [(Reconnecting, 3)]"
    by (simp add: addListener_def close_def fresh_state_def)
  show ?thesis
    using closed_facade_raises_ClosingError
        [OF closed, where k = "''x''" and fn = 3 and ?s0.0 = fresh_state
          and opts = default_options and a = Reset]
      registered
    by simp
qed

subsection \<open>What the store can hold\<close>

lemma well_defined_entries_iff:
  "well_defined_entries c \<longleftrightarrow>
     (\<forall>e \<in> set (entries c). snd e \<noteq> Undefined \<and> snd e \<noteq> Null)"
  by (simp add: well_defined_entries_def list_all_iff)

lemma reachable_run: "reachable opts s \<Longrightarrow> reachable opts (run opts s as)"
  unfolding run_def
  by (induction as arbitrary: s) (simp_all add: reachable.stepped)

lemma internalDel_entries_subset:
  "set (entries (cache (internalDel s k))) \<subseteq> set (entries (cache s))"
  by (cases "loadItemPromises s k")
     (auto simp: internalDel_def Let_def lru_del_def lru_without_def)

lemma getOrLoad_entries_subset:
  "set (entries (cache (snd (getOrLoad s k)))) \<subseteq> set (entries (cache s))"
  using lru_get_entries_subset [of "cache s" k]
  by (auto simp: getOrLoad_def assertIsClosingOrClosed_def Let_def
      split: prod.splits slot.splits)

lemma onMessage_entries_subset:
  "set (entries (cache (snd (onMessage s msg)))) \<subseteq> set (entries (cache s))"
proof (cases msg)
  case None
  then show ?thesis by (simp add: onMessage_def)
next
  case (Some m)
  then show ?thesis
    using internalDel_entries_subset [of s "drop 4 (content m)"]
    by (auto simp: onMessage_def Let_def emit_def internalReset_def lru_reset_def)
qed

text \<open>Only the completion of a load can add an entry to the store.\<close>

lemma only_settle_inserts:
  "set (entries (cache (step opts s a))) \<subseteq> set (entries (cache s)) \<or> (\<exists>p r. a = Settle p r)"
proof (cases a)
  case (GetOrLoad k)
  then show ?thesis using getOrLoad_entries_subset [of s k] by (simp add: step_def)
next
  case (Del k)
  then show ?thesis using internalDel_entries_subset [of "publish s (''del:'' @ k)" k]
    by (auto simp: step_def del_def assertIsClosingOrClosed_def publish_def)
next
  case (Message msg)
  then show ?thesis using onMessage_entries_subset [of s msg] by (simp add: step_def)
qed (auto simp: step_def reset_def prune_def assertIsClosingOrClosed_def
      close_def close_resume_def addListener_def removeListener_def lru_prune_def
      handleConnectionError_def handleConnectionError_resume_def
      internalReset_def lru_reset_def emit_def Let_def)

lemma getOrLoad_finally_cache: "cache (getOrLoad_finally s k) = cache s"
  by (simp add: getOrLoad_finally_def)

lemma getOrLoad_resume_well_defined:
  assumes "well_defined_entries (cache s)"
  shows "well_defined_entries (cache (snd (getOrLoad_resume opts s k r)))"
proof (cases r)
  case (Rejected e)
  with assms show ?thesis by (simp add: getOrLoad_resume_def getOrLoad_finally_cache)
next
  case (Resolved v)
  show ?thesis
    using assms lru_set_entries_subset [of "cache s" k v]
    by (auto simp: Resolved getOrLoad_resume_def Let_def getOrLoad_finally_cache
        well_defined_entries_iff)
qed

lemma step_well_defined:
  assumes "well_defined_entries (cache s)"
  shows "well_defined_entries (cache (step opts s a))"
proof (cases "\<exists>p r. a = Settle p r")
  case True
  then obtain p r where a: "a = Settle p r" by blast
  show ?thesis
  proof (cases "map_of (suspended s) p")
    case None
    with assms a show ?thesis by (simp add: step_def)
  next
    case (Some k)
    have "well_defined_entries
            (cache (s\<lparr>suspended := filter (\<lambda>e. fst e \<noteq> p) (suspended s)\<rparr>))"
      using assms by simp
    from getOrLoad_resume_well_defined [OF this, of opts k r] show ?thesis
      by (simp add: a step_def Some)
  qed
next
  case False
  with only_settle_inserts [of opts s a] assms show ?thesis
    by (auto simp: well_defined_entries_iff)
qed

lemma created_well_defined:
  "createRabbitLRUCache opts uuid = Inr s \<Longrightarrow> well_defined_entries (cache s)"
  by (auto simp: createRabbitLRUCache_def well_defined_entries_def split: if_splits)

lemma reachable_well_defined: "reachable opts s \<Longrightarrow> well_defined_entries (cache s)"
  by (induction rule: reachable.induct) (simp_all add: created_well_defined step_well_defined)

lemma loaded_state_eq:
  "loaded_state =
     \<lparr>closing = False, reconnecting = False, cacheId = ''cache-A'',
      cache = \<lparr>entries = [(''x'', Val 7)], lru_max = 0, lru_maxAge = 0,
               lru_allowStale = False\<rparr>,
      loadItemPromises = Map.empty, published = [], emitted = [], emitted_at = [],
      listeners = [],
      loader_calls = [(''x'', 0), (''n'', 1)], suspended = []\<rparr>"
  by (simp add: loaded_state_def run_def step_def fresh_state_def default_options_def
      getOrLoad_def assertIsClosingOrClosed_def lru_get_def prop_get_def
      object_prototype_keys_def getOrLoad_resume_def getOrLoad_finally_def
      allow_stale_data_def lru_set_def lru_trim_def lru_without_def Let_def)

lemma loaded_state_reachable: "reachable default_options loaded_state"
proof -
  have "reachable default_options fresh_state"
    using fresh_state_created by (rule reachable.created)
  then show ?thesis
    unfolding loaded_state_def by (rule reachable_run)
qed

text \<open>
  C10. In every state an instance can reach from its creation, no entry of the store holds
  \<^verbatim>\<open>null\<close> or \<^verbatim>\<open>undefined\<close>; so a read of the store gives \<^verbatim>\<open>undefined\<close> or
  \<^verbatim>\<open>null\<close> exactly when the key is absent. Of all that can happen to the instance, only
  the completion of a \<^verbatim>\<open>getOrLoad\<close> call adds an entry: every other step leaves the
  entries a subset of what they were.
\<close>

theorem store_holds_no_absent_value:
  assumes "reachable opts s"
  shows "well_defined_entries (cache s)
     \<and> ((fst (lru_get (cache s) k) = Undefined \<or> fst (lru_get (cache s) k) = Null)
          \<longleftrightarrow> \<not> lru_has (cache s) k)
     \<and> (set (entries (cache (step opts s a))) \<subseteq> set (entries (cache s))
          \<or> (\<exists>p r. a = Settle p r))"
proof -
  have inv: "well_defined_entries (cache s)"
    using assms by (rule reachable_well_defined)
  have read: "(fst (lru_get (cache s) k) = Undefined \<or> fst (lru_get (cache s) k) = Null)
          \<longleftrightarrow> \<not> lru_has (cache s) k"
  proof (cases "map_of (entries (cache s)) k")
    case None
    then show ?thesis by (simp add: lru_get_value lru_has_map_of)
  next
    case (Some v)
    then have "(k, v) \<in> set (entries (cache s))" by (rule map_of_SomeD)
    with inv have "v \<noteq> Undefined \<and> v \<noteq> Null"
      by (auto simp: well_defined_entries_iff)
    with Some show ?thesis by (simp add: lru_get_value lru_has_map_of)
  qed
  from inv read only_settle_inserts [of opts s a] show ?thesis by blast
qed

theorem store_holds_no_absent_value_witness:
  "well_defined_entries (cache loaded_state)
   \<and> entries (cache loaded_state) = [(''x'', Val 7)]
   \<and> loader_calls loaded_state = [(''x'', 0), (''n'', 1)]
   \<and> \<not> lru_has (cache loaded_state) ''n''
   \<and> fst (lru_get (cache loaded_state) ''n'') = Undefined
   \<and> fst (lru_get (cache loaded_state) ''x'') = Val 7"
proof -
  have now: "entries (cache loaded_state) = [(''x'', Val 7)]"
    "loader_calls loaded_state = [(''x'', 0), (''n'', 1)]"
    by (simp_all add: loaded_state_eq)
  show ?thesis
    using store_holds_no_absent_value [OF loaded_state_reachable, of "''n''" Reset]
    by (simp add: now lru_has_def lru_get_def)
qed

subsection \<open>The reconnect window\<close>

lemma reconnecting_getOrLoad: "reconnecting (snd (getOrLoad s k)) = reconnecting s"
  by (simp add: getOrLoad_def assertIsClosingOrClosed_def Let_def
      split: prod.splits slot.splits)

lemma reconnecting_internalDel: "reconnecting (internalDel s k) = reconnecting s"
  by (simp add: internalDel_def Let_def)

lemma reconnecting_onMessage: "reconnecting (snd (onMessage s msg)) = reconnecting s"
  by (simp add: onMessage_def Let_def emit_def internalReset_def reconnecting_internalDel
      split: option.splits)

lemma getOrLoad_resume_while_reconnecting:
  assumes "reconnecting s" and "\<not> allow_stale_data opts"
  shows "cache (snd (getOrLoad_resume opts s k r)) = cache s"
  using assms by (cases r) (simp_all add: getOrLoad_resume_def getOrLoad_finally_cache)

lemma reconnecting_getOrLoad_resume:
  "reconnecting (snd (getOrLoad_resume opts s k r)) = reconnecting s"
  by (cases r) (simp_all add: getOrLoad_resume_def getOrLoad_finally_def Let_def)

text \<open>
  Without \<^verbatim>\<open>allowStaleData\<close>, no step puts an entry into the store of a reconnecting
  instance.
\<close>

lemma step_keeps_stale_out:
  assumes inv: "reconnecting s \<longrightarrow> entries (cache s) = []"
    and strict: "\<not> allow_stale_data opts"
  shows "reconnecting (step opts s a) \<longrightarrow> entries (cache (step opts s a)) = []"
proof (cases a)
  case (GetOrLoad k)
  then show ?thesis
    using inv getOrLoad_entries_subset [of s k]
    by (auto simp: step_def reconnecting_getOrLoad)
next
  case (Settle p r)
  show ?thesis
  proof (cases "map_of (suspended s) p")
    case None
    with Settle inv show ?thesis by (simp add: step_def)
  next
    case (Some k)
    let ?s = "s\<lparr>suspended := filter (\<lambda>e. fst e \<noteq> p) (suspended s)\<rparr>"
    have "reconnecting ?s \<Longrightarrow> cache (snd (getOrLoad_resume opts ?s k r)) = cache ?s"
      using strict by (rule getOrLoad_resume_while_reconnecting [rotated])
    with inv show ?thesis
      by (simp add: Settle Some step_def reconnecting_getOrLoad_resume)
  qed
next
  case (Del k)
  then show ?thesis
    using inv internalDel_entries_subset [of "publish s (''del:'' @ k)" k]
    by (auto simp: step_def del_def assertIsClosingOrClosed_def publish_def
        reconnecting_internalDel)
next
  case (Message msg)
  then show ?thesis
    using inv onMessage_entries_subset [of s msg]
    by (auto simp: step_def reconnecting_onMessage)
qed (use inv in \<open>auto simp: step_def reset_def prune_def assertIsClosingOrClosed_def
      close_def close_resume_def addListener_def removeListener_def lru_prune_def
      handleConnectionError_def handleConnectionError_resume_def
      internalReset_def lru_reset_def emit_def Let_def\<close>)

lemma reachable_keeps_stale_out:
  assumes "reachable opts s" and "\<not> allow_stale_data opts"
  shows "reconnecting s \<longrightarrow> entries (cache s) = []"
  using assms
proof (induction rule: reachable.induct)
  case (created uuid s)
  then show ?case by (auto simp: createRabbitLRUCache_def split: if_splits)
next
  case (stepped s a)
  then show ?case by (simp add: step_keeps_stale_out)
qed

lemma default_window_state_eq:
  "default_window_state =
     \<lparr>closing = False, reconnecting = True, cacheId = ''cache-A'',
      cache = \<lparr>entries = [], lru_max = 0, lru_maxAge = 0, lru_allowStale = False\<rparr>,
      loadItemPromises = Map.empty, published = [],
      emitted = [EvReconnecting (Error ''connection lost'') 1 0],
      emitted_at = [([], Map.empty)], listeners = [],
      loader_calls = [(''x'', 0), (''n'', 1), (''y'', 2)], suspended = []\<rparr>"
  by (simp add: default_window_state_def loaded_state_eq run_def step_def default_options_def
      handleConnectionError_def internalReset_def lru_reset_def emit_def getOrLoad_def
      assertIsClosingOrClosed_def lru_get_def prop_get_def object_prototype_keys_def
      getOrLoad_resume_def getOrLoad_finally_def allow_stale_data_def Let_def)

lemma default_window_state_reachable: "reachable default_options default_window_state"
  unfolding default_window_state_def
  using loaded_state_reachable by (rule reachable_run)

text \<open>
  C4, as stated, concludes that the local cache is empty while the supervisor is
  reconnecting, even when \<^verbatim>\<open>allowStaleData\<close> is true. It is not: with
  \<^verbatim>\<open>allowStaleData: true\<close>, a load of \<^verbatim>\<open>"z"\<close> begun and completed after the
  connection was lost is stored, and the instance, still reconnecting, holds one item.
\<close>

theorem stale_load_stored_while_reconnecting:
  "reconnecting stale_window_state \<and> \<not> closing stale_window_state
   \<and> allow_stale_data stale_options
   \<and> lru_keys (cache stale_window_state) = [''z'']
   \<and> lru_itemCount (cache stale_window_state) = 1"
  by (simp add: stale_window_state_eq lru_keys_def lru_itemCount_def allow_stale_data_def
      stale_options_def)

text \<open>
  The order of clearing and emitting shows in what is recorded with the event: had the
  event been emitted first and the cache cleared afterwards, the entries of the moment
  would have been recorded with it.
\<close>

lemma emit_then_reset_differs:
  "emitted_at (emit (internalReset loaded_state) e) = [([], Map.empty)]
   \<and> emitted_at (internalReset (emit loaded_state e)) = [([(''x'', Val 7)], Map.empty)]"
  by (simp add: emit_def internalReset_def lru_reset_def loaded_state_eq)

text \<open>
  C4, amended. Whenever the handler is entered and the cache is not closing (on the
  connection's event and on every retry alike), it sets \<^verbatim>\<open>reconnecting\<close>, clears the
  table and the store and only then emits \<^verbatim>\<open>reconnecting\<close> with the incremented
  attempt: the store and the table are empty when the event is emitted. When the reattach
  succeeds it unsets \<^verbatim>\<open>reconnecting\<close>, clears both again and only then emits
  \<^verbatim>\<open>reconnected\<close>. So the cache is empty when either event is emitted, whatever
  \<^verbatim>\<open>allowStaleData\<close> is; and in every reachable state of an instance whose
  \<^verbatim>\<open>allowStaleData\<close> is not true, the store is empty while \<^verbatim>\<open>reconnecting\<close> is
  set.
\<close>

theorem reconnect_clears_cache:
  "(\<not> closing s \<longrightarrow>
      fst (handleConnectionError s err attempt retryInterval) = Some (attempt + 1)
      \<and> reconnecting (snd (handleConnectionError s err attempt retryInterval))
      \<and> entries (cache (snd (handleConnectionError s err attempt retryInterval))) = []
      \<and> loadItemPromises (snd (handleConnectionError s err attempt retryInterval)) = Map.empty
      \<and> emitted (snd (handleConnectionError s err attempt retryInterval)) =
           emitted s @ [EvReconnecting err (attempt + 1) retryInterval]
      \<and> emitted_at (snd (handleConnectionError s err attempt retryInterval)) =
           emitted_at s @ [([], Map.empty)])
   \<and> \<not> reconnecting (handleConnectionError_resume s err attempt retryInterval)
   \<and> entries (cache (handleConnectionError_resume s err attempt retryInterval)) = []
   \<and> loadItemPromises (handleConnectionError_resume s err attempt retryInterval) = Map.empty
   \<and> emitted (handleConnectionError_resume s err attempt retryInterval) =
        emitted s @ [EvReconnected err attempt retryInterval]
   \<and> emitted_at (handleConnectionError_resume s err attempt retryInterval) =
        emitted_at s @ [([], Map.empty)]
   \<and> (reachable opts s \<and> reconnecting s \<and> \<not> allow_stale_data opts \<longrightarrow>
        entries (cache s) = [])"
proof -
  have entered: "\<not> closing s \<Longrightarrow>
      fst (handleConnectionError s err attempt retryInterval) = Some (attempt + 1)
      \<and> reconnecting (snd (handleConnectionError s err attempt retryInterval))
      \<and> entries (cache (snd (handleConnectionError s err attempt retryInterval))) = []
      \<and> loadItemPromises (snd (handleConnectionError s err attempt retryInterval)) = Map.empty
      \<and> emitted (snd (handleConnectionError s err attempt retryInterval)) =
           emitted s @ [EvReconnecting err (attempt + 1) retryInterval]
      \<and> emitted_at (snd (handleConnectionError s err attempt retryInterval)) =
           emitted_at s @ [([], Map.empty)]"
    by (simp add: handleConnectionError_def Let_def internalReset_def lru_reset_def emit_def)
  have left: "\<not> reconnecting (handleConnectionError_resume s err attempt retryInterval)
   \<and> entries (cache (handleConnectionError_resume s err attempt retryInterval)) = []
   \<and> loadItemPromises (handleConnectionError_resume s err attempt retryInterval) = Map.empty
   \<and> emitted (handleConnectionError_resume s err attempt retryInterval) =
        emitted s @ [EvReconnected err attempt retryInterval]
   \<and> emitted_at (handleConnectionError_resume s err attempt retryInterval) =
        emitted_at s @ [([], Map.empty)]"
    by (simp add: handleConnectionError_resume_def Let_def internalReset_def lru_reset_def
        emit_def)
  have window:
    "reachable opts s \<and> reconnecting s \<and> \<not> allow_stale_data opts \<longrightarrow> entries (cache s) = []"
    using reachable_keeps_stale_out [of opts s] by blast
  from entered left window show ?thesis by blast
qed

theorem reconnect_clears_cache_witness:
  "\<not> closing loaded_state
   \<and> entries (cache loaded_state) = [(''x'', Val 7)]
   \<and> reconnecting (snd (handleConnectionError loaded_state (Error ''connection lost'') 0 0))
   \<and> entries (cache (snd (handleConnectionError loaded_state (Error ''connection lost'') 0 0))) = []
   \<and> emitted (snd (handleConnectionError loaded_state (Error ''connection lost'') 0 0)) =
        [EvReconnecting (Error ''connection lost'') 1 0]
   \<and> emitted_at (snd (handleConnectionError loaded_state (Error ''connection lost'') 0 0)) =
        [([], Map.empty)]
   \<and> entries (cache stale_window_state) = [(''z'', Val 1)]
   \<and> entries (cache (snd (handleConnectionError stale_window_state (Error ''connect failed'') 1 1000))) = []
   \<and> emitted_at (snd (handleConnectionError stale_window_state (Error ''connect failed'') 1 1000)) =
        [([], Map.empty), ([], Map.empty)]
   \<and> entries (cache (handleConnectionError_resume stale_window_state (Error ''connection lost'') 1 0)) = []
   \<and> emitted (handleConnectionError_resume stale_window_state (Error ''connection lost'') 1 0) =
        [EvReconnecting (Error ''connection lost'') 1 0, EvReconnected (Error ''connection lost'') 1 0]
   \<and> emitted_at (handleConnectionError_resume stale_window_state (Error ''connection lost'') 1 0) =
        [([], Map.empty), ([], Map.empty)]
   \<and> reachable default_options default_window_state
   \<and> reconnecting default_window_state
   \<and> \<not> allow_stale_data default_options
   \<and> loader_calls default_window_state = [(''x'', 0), (''n'', 1), (''y'', 2)]
   \<and> entries (cache default_window_state) = []"
proof -
  have open_now: "\<not> closing loaded_state" "entries (cache loaded_state) = [(''x'', Val 7)]"
    "emitted loaded_state = []" "emitted_at loaded_state = []"
    by (simp_all add: loaded_state_eq)
  have window: "reconnecting default_window_state" "\<not> allow_stale_data default_options"
    "loader_calls default_window_state = [(''x'', 0), (''n'', 1), (''y'', 2)]"
    by (simp_all add: default_window_state_eq allow_stale_data_def default_options_def)
  have stale: "\<not> closing stale_window_state"
    "entries (cache stale_window_state) = [(''z'', Val 1)]"
    "emitted stale_window_state = [EvReconnecting (Error ''connection lost'') 1 0]"
    "emitted_at stale_window_state = [([], Map.empty)]"
    by (simp_all add: stale_window_state_eq)
  show ?thesis
    using reconnect_clears_cache
        [where s = loaded_state and err = "Error ''connection lost''" and attempt = 0
          and retryInterval = 0 and opts = default_options]
      reconnect_clears_cache
        [where s = stale_window_state and err = "Error ''connect failed''" and attempt = 1
          and retryInterval = 1000 and opts = stale_options]
      reconnect_clears_cache
        [where s = stale_window_state and err = "Error ''connection lost''" and attempt = 1
          and retryInterval = 0 and opts = stale_options]
      reconnect_clears_cache
        [where s = default_window_state and err = "Error ''connection lost''" and attempt = 1
          and retryInterval = 0 and opts = default_options]
      default_window_state_reachable
    by (simp add: open_now window stale)
qed

subsection \<open>The retry interval\<close>

text \<open>
  The intervals are JavaScript numbers; the model takes them as integers (milliseconds),
  which the program's additions and comparisons treat exactly.
\<close>

lemma reconnecting_intervals_append:
  "reconnecting_intervals (es @ fs) = reconnecting_intervals es @ reconnecting_intervals fs"
  by (induction es rule: reconnecting_intervals.induct) simp_all

lemma handleConnectionError_open:
  assumes "\<not> closing s"
  shows "handleConnectionError s err attempt r =
     (Some (attempt + 1), emit (internalReset (s\<lparr>reconnecting := True\<rparr>)) (EvReconnecting err (attempt + 1) r))"
  using assms by (simp add: handleConnectionError_def Let_def)

lemma episode_intervals:
  assumes "\<not> closing s"
  shows "reconnecting_intervals (emitted (reconnect_episode opts s err attempt r (map Some es))) =
     reconnecting_intervals (emitted s) @
       map (\<lambda>i. (handleConnectionError_catch opts ^^ i) r) [0..<length es]"
  using assms
proof (induction es arbitrary: s err attempt r)
  case Nil
  then show ?case by simp
next
  case (Cons e es)
  let ?s1 = "emit (internalReset (s\<lparr>reconnecting := True\<rparr>)) (EvReconnecting err (attempt + 1) r)"
  have open1: "\<not> closing ?s1"
    using Cons.prems by (simp add: emit_def internalReset_def)
  have log: "reconnecting_intervals (emitted ?s1) = reconnecting_intervals (emitted s) @ [r]"
    by (simp add: emit_def internalReset_def reconnecting_intervals_append)
  have shift: "map (\<lambda>i. (handleConnectionError_catch opts ^^ i) r) [0..<Suc (length es)] =
     r # map (\<lambda>i. (handleConnectionError_catch opts ^^ i) (handleConnectionError_catch opts r)) [0..<length es]"
    by (simp add: upt_conv_Cons map_Suc_upt [symmetric] funpow_swap1 del: upt_Suc)
  show ?case
    using Cons.IH [OF open1, of e "attempt + 1" "handleConnectionError_catch opts r"]
    by (simp add: handleConnectionError_open [OF Cons.prems] log shift del: upt_Suc)
qed

lemma retry_interval_linear:
  assumes "0 < retry_interval_increase opts"
    and "n = 0 \<or> retry_interval_increase opts * (int n - 1) < retry_interval_up_to opts"
  shows "(handleConnectionError_catch opts ^^ n) 0 = retry_interval_increase opts * int n"
  using assms(2)
proof (induction n)
  case 0
  then show ?case by simp
next
  case (Suc n)
  have smaller: "n = 0 \<or> retry_interval_increase opts * (int n - 1) < retry_interval_up_to opts"
  proof (cases n)
    case 0 then show ?thesis by simp
  next
    case (Suc m)
    have "retry_interval_increase opts * (int n - 1) \<le> retry_interval_increase opts * (int (Suc n) - 1)"
      using assms(1) by (simp add: mult_le_cancel_left_pos)
    with Suc.prems show ?thesis by simp
  qed
  from Suc.IH [OF smaller] Suc.prems show ?case
    by (simp add: handleConnectionError_catch_def algebra_simps)
qed

lemma retry_interval_constant:
  assumes "retry_interval_up_to opts \<le> r"
  shows "(handleConnectionError_catch opts ^^ n) r = r"
  using assms by (induction n) (simp_all add: handleConnectionError_catch_def)

lemma retry_interval_bound:
  assumes "0 < retry_interval_increase opts" and "r < retry_interval_up_to opts + retry_interval_increase opts"
  shows "(handleConnectionError_catch opts ^^ n) r < retry_interval_up_to opts + retry_interval_increase opts"
  using assms by (induction n) (simp_all add: handleConnectionError_catch_def)

lemma retry_interval_capped_on_multiples:
  assumes "0 < retry_interval_increase opts"
    and "retry_interval_increase opts dvd retry_interval_up_to opts"
    and "retry_interval_increase opts dvd r" and "r \<le> retry_interval_up_to opts"
  shows "(handleConnectionError_catch opts ^^ n) r \<le> retry_interval_up_to opts
     \<and> retry_interval_increase opts dvd (handleConnectionError_catch opts ^^ n) r"
proof (induction n)
  case 0
  from assms(3,4) show ?case by simp
next
  case (Suc n)
  define x where "x = (handleConnectionError_catch opts ^^ n) r"
  from Suc have le: "x \<le> retry_interval_up_to opts"
    and dv: "retry_interval_increase opts dvd x"
    by (simp_all add: x_def)
  have next_x: "(handleConnectionError_catch opts ^^ Suc n) r = handleConnectionError_catch opts x"
    by (simp add: x_def)
  show ?case
  proof (cases "x < retry_interval_up_to opts")
    case False
    with le dv show ?thesis
      unfolding next_x by (simp add: handleConnectionError_catch_def)
  next
    case True
    from dv assms(2) obtain a b where a: "x = retry_interval_increase opts * a"
      and b: "retry_interval_up_to opts = retry_interval_increase opts * b"
      by (auto elim!: dvdE)
    from True have "a < b" using assms(1) by (simp add: a b)
    then have "a + 1 \<le> b" by simp
    then have "retry_interval_increase opts * (a + 1) \<le> retry_interval_increase opts * b"
      using assms(1) by (simp add: mult_le_cancel_left_pos)
    then have "x + retry_interval_increase opts \<le> retry_interval_up_to opts"
      unfolding a by (subst b) (simp add: algebra_simps)
    with True dv show ?thesis
      unfolding next_x by (simp add: handleConnectionError_catch_def)
  qed
qed

text \<open>
  So the interval grows by the increase from \<open>0\<close> for as long as the interval before was
  below \<^verbatim>\<open>retryIntervalUpTo\<close> (\<open>retry_interval_linear\<close>), stays as it is from then
  on (\<open>retry_interval_constant\<close>), and stays within \<^verbatim>\<open>retryIntervalUpTo\<close> when that
  is a multiple of the increase (\<open>retry_interval_capped_on_multiples\<close>); in general it
  stays below their sum (\<open>retry_interval_bound\<close>).
\<close>

text \<open>
  C7. Within one reconnect episode the retry intervals passed to the retries are
  \<open>0\<close>, the increase, twice the increase and so on until \<^verbatim>\<open>retryIntervalUpTo\<close> is
  reached, constant from then on and never above \<^verbatim>\<open>retryIntervalUpTo\<close>, for every
  positive choice of the two options. The program compares before it adds and does not
  clamp the sum: with \<^verbatim>\<open>retryIntervalIncrease: 1000\<close> and
  \<^verbatim>\<open>retryIntervalUpTo: 2500\<close>, five attempts that fail in a row are announced with the
  intervals \<open>0, 1000, 2000, 3000, 3000\<close>, and the last two exceed \<open>2500\<close>.
\<close>

theorem retry_interval_exceeds_up_to:
  "retry_interval_increase uneven_options = 1000
   \<and> retry_interval_up_to uneven_options = 2500
   \<and> reconnecting_intervals (emitted (reconnect_episode uneven_options fresh_state
        (Error ''connection lost'') 0 0 (replicate 5 (Some (Error ''connect failed''))))) =
       [0, 1000, 2000, 3000, 3000]"
proof -
  have options: "retry_interval_increase uneven_options = 1000"
    "retry_interval_up_to uneven_options = 2500"
    by (simp_all add: retry_interval_increase_def retry_interval_up_to_def uneven_options_def)
  have failures: "replicate 5 (Some (Error ''connect failed'')) =
      map Some (replicate 5 (Error ''connect failed''))"
    by simp
  have "reconnecting_intervals (emitted (reconnect_episode uneven_options fresh_state
        (Error ''connection lost'') 0 0 (replicate 5 (Some (Error ''connect failed''))))) =
      map (\<lambda>i. (handleConnectionError_catch uneven_options ^^ i) 0) [0..<5]"
    unfolding failures
    by (subst episode_intervals) (simp_all add: fresh_state_def)
  also have "\<dots> = [0, 1000, 2000, 3000, 3000]"
    by (simp add: upt_rec numeral_eq_Suc handleConnectionError_catch_def options)
  finally show ?thesis
    using options by simp
qed

subsection \<open>Cancellation of the consumer\<close>

text \<open>
  C8 is about what follows when the broker cancels the consumer. When the bus client
  passes \<^verbatim>\<open>null\<close>, the callback throws and changes nothing: the
  variable \<^verbatim>\<open>reconnecting\<close> is only ever set by \<^verbatim>\<open>handleConnectionError\<close>, which
  the program registers for the connection's \<^verbatim>\<open>error\<close> and \<^verbatim>\<open>close\<close> events.
  What the bus client does with an exception of a consumer callback is not part of the
  program.
\<close>

lemma onMessage_cancelled:
  "onMessage s None = (Inl (Error ''consumer has been cancelled by RabbitMq''), s)"
  by (simp add: onMessage_def)

lemma only_handler_sets_reconnecting:
  assumes "reconnecting (step opts s a)" and "\<not> reconnecting s"
  shows "\<exists>err attempt retryInterval. a = HandleConnectionError err attempt retryInterval"
proof (cases a)
  case (Settle p r)
  with assms show ?thesis
    by (cases "map_of (suspended s) p")
       (simp_all add: step_def reconnecting_getOrLoad_resume)
next
  case (Del k)
  with assms show ?thesis
    by (simp add: step_def del_def assertIsClosingOrClosed_def reconnecting_internalDel
        publish_def split: if_splits)
qed (use assms in \<open>simp_all add: step_def reconnecting_getOrLoad reconnecting_onMessage
      reset_def prune_def assertIsClosingOrClosed_def close_def close_resume_def
      addListener_def removeListener_def handleConnectionError_resume_def
      internalReset_def emit_def publish_def Let_def split: if_splits\<close>)

end
